theory Spec2Isabelle
  imports Main "HOL-Library.AList" "HOL-Library.Multiset"
begin

section \<open>Characters and coordinates\<close>

text \<open>
  A coordinate is a column and a row (\<open>Coord(column, row)\<close> in the effect code). An effect
  character carries the fields the sources read and write: its input symbol and
  coordinate, the symbol it shows, its current and last coordinate, and the two flags
  \<open>is_active\<close> and \<open>is_visible\<close>. The record is used as an extensible scheme, so every
  function below also accepts characters that carry further state (motion, animation,
  event bindings) in the extension slot.
\<close>

record coord =
  column :: int
  row :: int

record effect_character =
  input_symbol :: string
  input_coord :: coord
  symbol :: string
  current_coord :: coord
  last_coord :: coord
  is_active :: bool
  is_visible :: bool

section \<open>Terminal operations (utils/terminaloperations.py)\<close>

text \<open>
  The table of escape codes (\<open>utils.ansi.ANSIcodes\<close>) is not part of the sources. Each
  code is kept as a symbolic token of the output stream, with the argument it is called
  with. Standard output is the list of operations performed on it, in order.
\<close>

datatype ansicode =
    DEC_SAVE_CURSOR_POSITION
  | MOVE_CURSOR_UP int
  | MOVE_CURSOR_TO_COLUMN int
  | DEC_RESTORE_CURSOR_POSITION

datatype stdout_op =
    Write_code ansicode
  | Write_text string
  | Flush

definition move_and_print :: "string \<Rightarrow> int \<Rightarrow> int \<Rightarrow> stdout_op list" where
  "move_and_print symb r c =
     [Write_code DEC_SAVE_CURSOR_POSITION,
      Write_code (MOVE_CURSOR_UP r),
      Write_code (MOVE_CURSOR_TO_COLUMN c),
      Write_text symb,
      Write_code DEC_RESTORE_CURSOR_POSITION,
      Flush]"

definition print_character :: "'m effect_character_scheme \<Rightarrow> bool \<Rightarrow> stdout_op list" where
  "print_character character clear_last =
     move_and_print (symbol character) (row (current_coord character))
       (column (current_coord character))
     @ (if clear_last
        then move_and_print '' '' (row (last_coord character)) (column (last_coord character))
        else [])"

text \<open>
  Standard input is a flag telling whether it is attached to a TTY, and the content still
  to be read. \<open>sys.stdin.read()\<close> returns all of the content and leaves nothing unread.
\<close>

record stdin =
  isatty :: bool
  unread :: string

definition get_piped_input :: "stdin \<Rightarrow> string \<times> stdin" where
  "get_piped_input sin =
     (if \<not> isatty sin then (unread sin, sin\<lparr>unread := ''''\<rparr>)
      else ('''', sin))"

section \<open>The entry point (terminaltexteffects/__main__.py)\<close>

text \<open>
  \<open>main\<close> first builds the argument parser and parses the command line; the model starts
  from there, with standard input as its argument. What \<open>main\<close> does afterwards is
  recorded as a list of events: a line printed on standard output, the construction of
  the effect object from the input data, and the call of its \<open>run\<close> method.
\<close>

datatype main_event =
    Print_line string
  | Construct_effect string
  | Run_effect

definition main :: "stdin \<Rightarrow> main_event list \<times> stdin" where
  "main sin =
     (let (input_data, sin') = get_piped_input sin in
      if input_data = '''' then ([Print_line ''NO INPUT.''], sin')
      else ([Construct_effect input_data, Run_effect], sin'))"

section \<open>Reading the output stream\<close>

text \<open>
  Two observers of the output stream. \<open>placements\<close> lists the texts written together
  with the row and column arguments of the cursor moves that precede them since the last
  save of the cursor. \<open>bracketed\<close> holds when every cursor move and every text is
  written between a save of the cursor and the following restore.
\<close>

record placement =
  at_row :: "int option"
  at_column :: "int option"
  text_written :: string

fun placements_from :: "int option \<Rightarrow> int option \<Rightarrow> stdout_op list \<Rightarrow> placement list" where
  "placements_from r c [] = []"
| "placements_from r c (Write_code DEC_SAVE_CURSOR_POSITION # ops) = placements_from None None ops"
| "placements_from r c (Write_code (MOVE_CURSOR_UP n) # ops) = placements_from (Some n) c ops"
| "placements_from r c (Write_code (MOVE_CURSOR_TO_COLUMN n) # ops) = placements_from r (Some n) ops"
| "placements_from r c (Write_code DEC_RESTORE_CURSOR_POSITION # ops) = placements_from None None ops"
| "placements_from r c (Write_text s # ops) =
     \<lparr>at_row = r, at_column = c, text_written = s\<rparr> # placements_from r c ops"
| "placements_from r c (Flush # ops) = placements_from r c ops"

definition placements :: "stdout_op list \<Rightarrow> placement list" where
  "placements ops = placements_from None None ops"

fun bracketed :: "bool \<Rightarrow> stdout_op list \<Rightarrow> bool" where
  "bracketed inside [] = (inside = False)"
| "bracketed inside (Write_code DEC_SAVE_CURSOR_POSITION # ops) =
     (inside = False \<and> bracketed True ops)"
| "bracketed inside (Write_code DEC_RESTORE_CURSOR_POSITION # ops) =
     (inside = True \<and> bracketed False ops)"
| "bracketed inside (Write_code (MOVE_CURSOR_UP n) # ops) = (inside = True \<and> bracketed inside ops)"
| "bracketed inside (Write_code (MOVE_CURSOR_TO_COLUMN n) # ops) =
     (inside = True \<and> bracketed inside ops)"
| "bracketed inside (Write_text s # ops) = (inside = True \<and> bracketed inside ops)"
| "bracketed inside (Flush # ops) = bracketed inside ops"

text \<open>
  The terminal's cursor. The terminal keeps the cursor position and one saved position.
  The save code stores the cursor, the restore code puts the stored position back. How
  the two move codes and a written text move the cursor is left open: they are three
  arbitrary functions on positions.
\<close>

record cursor_moves =
  move_up :: "int \<Rightarrow> coord \<Rightarrow> coord"
  move_to_column :: "int \<Rightarrow> coord \<Rightarrow> coord"
  advance :: "string \<Rightarrow> coord \<Rightarrow> coord"

record cursor_state =
  cursor :: coord
  saved_cursor :: coord

fun terminal_step :: "cursor_moves \<Rightarrow> cursor_state \<Rightarrow> stdout_op \<Rightarrow> cursor_state" where
  "terminal_step mv t (Write_code DEC_SAVE_CURSOR_POSITION) = t\<lparr>saved_cursor := cursor t\<rparr>"
| "terminal_step mv t (Write_code DEC_RESTORE_CURSOR_POSITION) = t\<lparr>cursor := saved_cursor t\<rparr>"
| "terminal_step mv t (Write_code (MOVE_CURSOR_UP n)) = t\<lparr>cursor := move_up mv n (cursor t)\<rparr>"
| "terminal_step mv t (Write_code (MOVE_CURSOR_TO_COLUMN n)) =
     t\<lparr>cursor := move_to_column mv n (cursor t)\<rparr>"
| "terminal_step mv t (Write_text s) = t\<lparr>cursor := advance mv s (cursor t)\<rparr>"
| "terminal_step mv t Flush = t"

definition terminal_run :: "cursor_moves \<Rightarrow> cursor_state \<Rightarrow> stdout_op list \<Rightarrow> cursor_state" where
  "terminal_run mv t ops = foldl (terminal_step mv) t ops"

section \<open>The render pass\<close>

text \<open>
  Modelled from the spec: the render pass of the canvas (\<open>Terminal.print\<close>), whose code
  is not part of the sources. For every visible character whose current coordinate
  differs from the one rendered last, it issues a clear at the previous position and a
  write at the new one, which is \<open>print_character\<close> with \<open>clear_last\<close> set; a character
  that has not moved is written again in place only if its symbol or colour changed. The
  test for a changed appearance is a parameter.
\<close>

definition render_character ::
  "('m effect_character_scheme \<Rightarrow> bool) \<Rightarrow> 'm effect_character_scheme \<Rightarrow> stdout_op list" where
  "render_character appearance_changed character =
     (if is_visible character = False then []
      else if current_coord character \<noteq> last_coord character then print_character character True
      else if appearance_changed character then print_character character False
      else [])"

definition render_pass ::
  "('m effect_character_scheme \<Rightarrow> bool) \<Rightarrow> 'm effect_character_scheme list \<Rightarrow> stdout_op list" where
  "render_pass appearance_changed visible = concat (map (render_character appearance_changed) visible)"

section \<open>The rain effect (terminaltexteffects/examples/effect_rain.py)\<close>

text \<open>
  Characters are objects shared between the terminal and the effect's lists, and
  \<open>tick\<close> mutates them in place. The model keeps them in a store indexed by an
  identifier; the lists of the effect hold identifiers. The state of a run is the store,
  the terminal's characters and the top row of its output area, the three containers of
  the effect (\<open>pending_chars\<close>, \<open>active_chars\<close> and the dictionary \<open>group_by_row\<close>, an
  association list in insertion order), the number of draws taken so far from the
  process-wide random generator, and the trace of the calls made on the terminal and on
  the characters.
\<close>

type_synonym char_id = nat

datatype effect_event =
    Set_visible char_id
  | Tick char_id
  | Print

datatype error = ZeroDivisionError

record 'm rain_effect =
  characters :: "char_id \<Rightarrow> 'm effect_character_scheme"
  terminal_characters :: "char_id list"
  output_area_top :: int
  pending_chars :: "char_id list"
  active_chars :: "char_id list"
  group_by_row :: "(int \<times> char_id list) list"
  draws_taken :: nat
  trace :: "effect_event list"

text \<open>
  The module \<open>random\<close> is the process-wide generator: no function of the effect takes a
  seed or a generator. It is modelled as the sequence \<open>raw\<close> of its raw draws; each call
  uses the draw at position \<open>draws_taken\<close> and advances the position by one.
\<close>

definition randint :: "(nat \<Rightarrow> nat) \<Rightarrow> int \<Rightarrow> int \<Rightarrow> nat \<Rightarrow> int" where
  "randint raw a b p = a + int (raw p mod nat (b - a + 1))"

text \<open>
  Modelled from the spec: the terminal (\<open>Terminal\<close>) is not part of the sources. Its
  render pass \<open>print()\<close> is recorded as an event of the trace; setting the visibility of
  a character is recorded as an event and sets the character's flag.
\<close>

definition terminal_print :: "'m rain_effect \<Rightarrow> 'm rain_effect" where
  "terminal_print e = e\<lparr>trace := trace e @ [Print]\<rparr>"

definition set_character_visibility :: "char_id \<Rightarrow> bool \<Rightarrow> 'm rain_effect \<Rightarrow> 'm rain_effect" where
  "set_character_visibility i v e =
     e\<lparr>characters := (characters e)(i := (characters e i)\<lparr>is_visible := v\<rparr>),
       trace := trace e @ [Set_visible i]\<rparr>"

subsection \<open>prepare_data\<close>

text \<open>
  The second loop of \<open>prepare_data\<close> takes three draws per character (the colour of the
  drop, its symbol, its speed), builds the character's scenes and path from them and
  from the top row, and appends the character to \<open>pending_chars\<close>. Scenes, paths and
  gradients are classes outside the sources: what they do to the character is the
  parameter \<open>configure\<close>. The first loop divides the character's row by the top row of the
  output area, which raises \<open>ZeroDivisionError\<close> when that row is zero.
\<close>

fun prepare_characters ::
  "(nat \<Rightarrow> nat \<Rightarrow> nat \<Rightarrow> int \<Rightarrow> 'm effect_character_scheme \<Rightarrow> 'm effect_character_scheme) \<Rightarrow>
   (nat \<Rightarrow> nat) \<Rightarrow> char_id list \<Rightarrow> 'm rain_effect \<Rightarrow> 'm rain_effect" where
  "prepare_characters configure raw [] e = e"
| "prepare_characters configure raw (i # cs) e =
     prepare_characters configure raw cs
       (e\<lparr>characters := (characters e)
            (i := configure (raw (draws_taken e)) (raw (draws_taken e + 1)) (raw (draws_taken e + 2))
                    (output_area_top e) (characters e i)),
          draws_taken := draws_taken e + 3,
          pending_chars := pending_chars e @ [i]\<rparr>)"

definition group_append :: "(int \<times> char_id list) list \<Rightarrow> int \<Rightarrow> char_id \<Rightarrow> (int \<times> char_id list) list" where
  "group_append g r i =
     AList.map_entry r (\<lambda>cs. cs @ [i]) (if r \<in> fst ` set g then g else AList.update r [] g)"

fun group_rows ::
  "(char_id \<Rightarrow> 'm effect_character_scheme) \<Rightarrow> char_id list \<Rightarrow> (int \<times> char_id list) list \<Rightarrow>
   (int \<times> char_id list) list" where
  "group_rows chars [] g = g"
| "group_rows chars (i # cs) g = group_rows chars cs (group_append g (row (input_coord (chars i))) i)"

definition prepare_data ::
  "(nat \<Rightarrow> nat \<Rightarrow> nat \<Rightarrow> int \<Rightarrow> 'm effect_character_scheme \<Rightarrow> 'm effect_character_scheme) \<Rightarrow>
   (nat \<Rightarrow> nat) \<Rightarrow> 'm rain_effect \<Rightarrow> error + 'm rain_effect" where
  "prepare_data configure raw e =
     (if terminal_characters e \<noteq> [] \<and> output_area_top e = 0 then Inl ZeroDivisionError
      else
        let e1 = prepare_characters configure raw (terminal_characters e) e;
            by_row = sort_key (\<lambda>i. row (input_coord (characters e1 i))) (pending_chars e1)
        in Inr (e1\<lparr>group_by_row := group_rows (characters e1) by_row (group_by_row e1)\<rparr>))"

subsection \<open>The loop of run\<close>

definition loop_condition :: "'m rain_effect \<Rightarrow> bool" where
  "loop_condition e = (group_by_row e \<noteq> [] \<or> active_chars e \<noteq> [] \<or> pending_chars e \<noteq> [])"

text \<open>
  \<open>pop(min(keys))\<close>: the smallest key is a key of the dictionary, so the lookup always
  finds its group; the other branch of the case is never taken.
\<close>

definition stage_next_group :: "'m rain_effect \<Rightarrow> 'm rain_effect" where
  "stage_next_group e =
     (if pending_chars e = [] \<and> group_by_row e \<noteq> [] then
        let k = min_list (map fst (group_by_row e)) in
        e\<lparr>pending_chars := pending_chars e @ (case map_of (group_by_row e) k of Some cs \<Rightarrow> cs | None \<Rightarrow> []),
          group_by_row := AList.delete k (group_by_row e)\<rparr>
      else e)"

definition reveal_one :: "(nat \<Rightarrow> nat) \<Rightarrow> 'm rain_effect \<Rightarrow> 'm rain_effect" where
  "reveal_one raw e =
     (let idx = nat (randint raw 0 (int (length (pending_chars e)) - 1) (draws_taken e));
          next_character = pending_chars e ! idx;
          e1 = e\<lparr>pending_chars := take idx (pending_chars e) @ drop (Suc idx) (pending_chars e),
                 draws_taken := Suc (draws_taken e)\<rparr>;
          e2 = set_character_visibility next_character True e1
      in e2\<lparr>active_chars := active_chars e2 @ [next_character]\<rparr>)"

fun reveal_loop :: "(nat \<Rightarrow> nat) \<Rightarrow> nat \<Rightarrow> 'm rain_effect \<Rightarrow> 'm rain_effect" where
  "reveal_loop raw 0 e = e"
| "reveal_loop raw (Suc n) e =
     (if pending_chars e \<noteq> [] then reveal_loop raw n (reveal_one raw e) else e)"

definition reveal_chars :: "(nat \<Rightarrow> nat) \<Rightarrow> 'm rain_effect \<Rightarrow> 'm rain_effect" where
  "reveal_chars raw e =
     (if pending_chars e \<noteq> [] then
        reveal_loop raw (nat (randint raw 1 3 (draws_taken e))) (e\<lparr>draws_taken := Suc (draws_taken e)\<rparr>)
      else e)"

definition tick_character ::
  "('m effect_character_scheme \<Rightarrow> 'm effect_character_scheme) \<Rightarrow> char_id \<Rightarrow> 'm rain_effect \<Rightarrow> 'm rain_effect" where
  "tick_character tick i e =
     e\<lparr>characters := (characters e)(i := tick (characters e i)), trace := trace e @ [Tick i]\<rparr>"

definition animate_chars ::
  "('m effect_character_scheme \<Rightarrow> 'm effect_character_scheme) \<Rightarrow> 'm rain_effect \<Rightarrow> 'm rain_effect" where
  "animate_chars tick e = fold (tick_character tick) (active_chars e) e"

definition drop_inactive :: "'m rain_effect \<Rightarrow> 'm rain_effect" where
  "drop_inactive e = e\<lparr>active_chars := filter (\<lambda>i. is_active (characters e i)) (active_chars e)\<rparr>"

definition frame ::
  "('m effect_character_scheme \<Rightarrow> 'm effect_character_scheme) \<Rightarrow> (nat \<Rightarrow> nat) \<Rightarrow>
   'm rain_effect \<Rightarrow> 'm rain_effect" where
  "frame tick raw e =
     terminal_print (drop_inactive (animate_chars tick (reveal_chars raw (stage_next_group e))))"

text \<open>
  The loop may run forever (a character whose \<open>tick\<close> never clears \<open>is_active\<close> keeps it
  going), so it is run with fuel: \<open>None\<close> means that the loop has not ended within the
  given number of frames. \<open>loop_prefix\<close> is the state after at most that many frames, ended
  or not.
\<close>

fun run_loop ::
  "('m effect_character_scheme \<Rightarrow> 'm effect_character_scheme) \<Rightarrow> (nat \<Rightarrow> nat) \<Rightarrow> nat \<Rightarrow>
   'm rain_effect \<Rightarrow> 'm rain_effect option" where
  "run_loop tick raw 0 e = (if loop_condition e then None else Some e)"
| "run_loop tick raw (Suc n) e = (if loop_condition e then run_loop tick raw n (frame tick raw e) else Some e)"

fun loop_prefix ::
  "('m effect_character_scheme \<Rightarrow> 'm effect_character_scheme) \<Rightarrow> (nat \<Rightarrow> nat) \<Rightarrow> nat \<Rightarrow>
   'm rain_effect \<Rightarrow> 'm rain_effect" where
  "loop_prefix tick raw 0 e = e"
| "loop_prefix tick raw (Suc n) e = (if loop_condition e then loop_prefix tick raw n (frame tick raw e) else e)"

definition before_loop ::
  "(nat \<Rightarrow> nat \<Rightarrow> nat \<Rightarrow> int \<Rightarrow> 'm effect_character_scheme \<Rightarrow> 'm effect_character_scheme) \<Rightarrow>
   (nat \<Rightarrow> nat) \<Rightarrow> 'm rain_effect \<Rightarrow> error + 'm rain_effect" where
  "before_loop configure raw e =
     (case prepare_data configure raw e of
        Inl err \<Rightarrow> Inl err
      | Inr e1 \<Rightarrow> Inr (terminal_print (e1\<lparr>pending_chars := []\<rparr>)))"

definition run ::
  "(nat \<Rightarrow> nat \<Rightarrow> nat \<Rightarrow> int \<Rightarrow> 'm effect_character_scheme \<Rightarrow> 'm effect_character_scheme) \<Rightarrow>
   ('m effect_character_scheme \<Rightarrow> 'm effect_character_scheme) \<Rightarrow> (nat \<Rightarrow> nat) \<Rightarrow> nat \<Rightarrow>
   'm rain_effect \<Rightarrow> (error + 'm rain_effect) option" where
  "run configure tick raw fuel e =
     (case before_loop configure raw e of
        Inl err \<Rightarrow> Some (Inl err)
      | Inr e1 \<Rightarrow> map_option Inr (run_loop tick raw fuel e1))"

text \<open>
  \<open>__init__\<close> starts the effect with empty containers; \<open>new_effect\<close> is that state for a
  given terminal. \<open>revealed\<close> lists the characters made visible in a trace, in order.
\<close>

definition new_effect ::
  "(char_id \<Rightarrow> 'm effect_character_scheme) \<Rightarrow> char_id list \<Rightarrow> int \<Rightarrow> nat \<Rightarrow> 'm rain_effect" where
  "new_effect store cs top_row p =
     \<lparr>characters = store, terminal_characters = cs, output_area_top = top_row,
      pending_chars = [], active_chars = [], group_by_row = [], draws_taken = p, trace = []\<rparr>"

fun revealed :: "effect_event list \<Rightarrow> char_id list" where
  "revealed [] = []"
| "revealed (Set_visible i # evs) = i # revealed evs"
| "revealed (Tick i # evs) = revealed evs"
| "revealed (Print # evs) = revealed evs"

text \<open>
  The characters not yet revealed are those in \<open>pending_chars\<close> and in the groups of
  \<open>group_by_row\<close>; with the revealed ones they make up the characters accounted for.
\<close>

definition accounted :: "'m rain_effect \<Rightarrow> char_id multiset" where
  "accounted e =
     mset (revealed (trace e)) + mset (pending_chars e) + mset (concat (map snd (group_by_row e)))"

subsection \<open>What the effect is given\<close>

text \<open>
  \<open>RainEffect(terminal, args)\<close> is given a terminal and the arguments object and nothing
  else. \<open>RainEffectArgs\<close> has seven fields, none of them a seed or a generator; colours
  are XTerm numbers or RGB hex strings, and the types of the speeds (floats) and of the
  easing function are left open. \<open>rain_effect_frames\<close> is the effect constructed from a
  terminal and arguments and run for at most the given number of frames: the terminal is
  its store, its list of characters and its top row; \<open>build\<close> is what the classes outside
  the sources make of the arguments and of the three draws of a character; the generator
  \<open>raw\<close> and the position \<open>p\<close> it has reached are those of the process, as the effect
  finds them.
\<close>

datatype color = XTerm int | RGB_hex string




section \<open>A small input\<close>

text \<open>
  The input \<open>hi\<close>: one row, two columns. Each character starts at the top row of an
  output area of height two, falls one row per tick, and is finished on the tick after
  it has reached its input row. \<open>demo_effect\<close> is the effect as constructed for that
  terminal; \<open>demo_staged\<close> is a state of the loop of \<open>run\<close> in which both characters
  wait in the group of row one, each already at its input row.
\<close>

definition demo_character :: "string \<Rightarrow> int \<Rightarrow> int \<Rightarrow> effect_character" where
  "demo_character s c r =
     \<lparr>input_symbol = s, input_coord = \<lparr>column = c, row = r\<rparr>, symbol = s,
      current_coord = \<lparr>column = c, row = r\<rparr>, last_coord = \<lparr>column = c, row = r\<rparr>,
      is_active = True, is_visible = False\<rparr>"

definition demo_store :: "char_id \<Rightarrow> effect_character" where
  "demo_store i = (if i = 0 then demo_character ''h'' 0 1 else demo_character ''i'' 1 1)"

definition demo_configure :: "nat \<Rightarrow> nat \<Rightarrow> nat \<Rightarrow> int \<Rightarrow> effect_character \<Rightarrow> effect_character" where
  "demo_configure colour_draw symbol_draw speed_draw top_row ch =
     ch\<lparr>current_coord := \<lparr>column = column (input_coord ch), row = top_row\<rparr>\<rparr>"

definition demo_tick :: "effect_character \<Rightarrow> effect_character" where
  "demo_tick ch =
     (if row (current_coord ch) \<le> row (input_coord ch)
      then ch\<lparr>last_coord := current_coord ch, is_active := False\<rparr>
      else ch\<lparr>last_coord := current_coord ch,
              current_coord := \<lparr>column = column (current_coord ch), row = row (current_coord ch) - 1\<rparr>\<rparr>)"

definition demo_effect :: "unit rain_effect" where
  "demo_effect = new_effect demo_store [0, 1] 2 0"

definition demo_staged :: "unit rain_effect" where
  "demo_staged =
     \<lparr>characters = demo_store, terminal_characters = [0, 1], output_area_top = 2,
      pending_chars = [], active_chars = [], group_by_row = [(1, [0, 1])], draws_taken = 6,
      trace = [Print]\<rparr>"



section \<open>Properties of the terminal operations\<close>

lemma terminal_run_Nil: "terminal_run mv t [] = t"
  by (simp add: terminal_run_def)

lemma terminal_run_append:
  "terminal_run mv t (xs @ ys) = terminal_run mv (terminal_run mv t xs) ys"
  by (simp add: terminal_run_def)

lemma move_and_print_cursor: "cursor (terminal_run mv t (move_and_print s r c)) = cursor t"
  by (simp add: terminal_run_def move_and_print_def)

lemma bracketed_append: "bracketed b xs \<Longrightarrow> bracketed False ys \<Longrightarrow> bracketed b (xs @ ys)"
  by (induction b xs rule: bracketed.induct) auto

lemma move_and_print_bracketed: "bracketed False (move_and_print s r c)"
  by (simp add: move_and_print_def)

text \<open>
  Claim C10. \<open>print_character\<close> leaves the cursor where it was, for every character,
  for both values of \<open>clear_last\<close> and whatever the cursor moves and the written text do
  to the cursor: every move and every text it writes lies between a save of the cursor
  and the restore that follows.
\<close>

theorem print_character_cursor_unchanged:
  "cursor (terminal_run mv t (print_character character clear_last)) = cursor t
   \<and> bracketed False (print_character character clear_last)"
  by (simp add: print_character_def terminal_run_append terminal_run_Nil move_and_print_cursor
      move_and_print_bracketed bracketed_append)

theorem print_character_cursor_unchanged_witness:
  "cursor (terminal_run
      \<lparr>move_up = \<lambda>n p. p\<lparr>row := row p + n\<rparr>,
       move_to_column = \<lambda>n p. p\<lparr>column := n\<rparr>,
       advance = \<lambda>s p. p\<lparr>column := column p + int (length s)\<rparr>\<rparr>
      \<lparr>cursor = \<lparr>column = 0, row = 0\<rparr>, saved_cursor = \<lparr>column = 7, row = 7\<rparr>\<rparr>
      (print_character (demo_character ''h'' 3 2) True)) = \<lparr>column = 0, row = 0\<rparr>
   \<and> bracketed False (print_character (demo_character ''h'' 3 2) True)
   \<and> bracketed False (print_character (demo_character ''h'' 3 2) False)"
  using print_character_cursor_unchanged [of
      "\<lparr>move_up = \<lambda>n p. p\<lparr>row := row p + n\<rparr>,
        move_to_column = \<lambda>n p. p\<lparr>column := n\<rparr>,
        advance = \<lambda>s p. p\<lparr>column := column p + int (length s)\<rparr>\<rparr>"
      "\<lparr>cursor = \<lparr>column = 0, row = 0\<rparr>, saved_cursor = \<lparr>column = 7, row = 7\<rparr>\<rparr>"
      "demo_character ''h'' 3 2" True]
    print_character_cursor_unchanged [of
      "\<lparr>move_up = \<lambda>n p. p\<lparr>row := row p + n\<rparr>,
        move_to_column = \<lambda>n p. p\<lparr>column := n\<rparr>,
        advance = \<lambda>s p. p\<lparr>column := column p + int (length s)\<rparr>\<rparr>"
      "\<lparr>cursor = \<lparr>column = 0, row = 0\<rparr>, saved_cursor = \<lparr>column = 7, row = 7\<rparr>\<rparr>"
      "demo_character ''h'' 3 2" False]
  by simp

lemma placements_from_move_and_print:
  "placements_from r0 c0 (move_and_print s r c @ ops) =
     \<lparr>at_row = Some r, at_column = Some c, text_written = s\<rparr> # placements_from None None ops"
  by (simp add: move_and_print_def)

lemma placements_print_character_clear:
  "placements_from r0 c0 (print_character ch True @ ops) =
     [\<lparr>at_row = Some (row (current_coord ch)), at_column = Some (column (current_coord ch)),
       text_written = symbol ch\<rparr>,
      \<lparr>at_row = Some (row (last_coord ch)), at_column = Some (column (last_coord ch)),
       text_written = '' ''\<rparr>] @ placements_from None None ops"
  by (simp add: print_character_def placements_from_move_and_print)

lemma placements_print_character_keep:
  "placements_from r0 c0 (print_character ch False @ ops) =
     [\<lparr>at_row = Some (row (current_coord ch)), at_column = Some (column (current_coord ch)),
       text_written = symbol ch\<rparr>] @ placements_from None None ops"
  by (simp add: print_character_def placements_from_move_and_print)

lemma placements_render_character:
  "placements_from None None (render_character ac ch @ ops) =
     placements (render_character ac ch) @ placements_from None None ops"
  using placements_print_character_clear [of None None ch ops]
    placements_print_character_clear [of None None ch "[]"]
    placements_print_character_keep [of None None ch ops]
    placements_print_character_keep [of None None ch "[]"]
  by (simp add: render_character_def placements_def)

lemma placements_render_pass_append:
  "placements (render_pass ac (xs @ ys)) = placements (render_pass ac xs) @ placements (render_pass ac ys)"
proof (induction xs)
  case Nil
  then show ?case by (simp add: render_pass_def placements_def)
next
  case (Cons x xs)
  have "placements (render_pass ac ((x # xs) @ ys)) =
      placements_from None None (render_character ac x @ render_pass ac (xs @ ys))"
    by (simp add: render_pass_def placements_def)
  also have "\<dots> = placements (render_character ac x) @ placements (render_pass ac (xs @ ys))"
    by (simp add: placements_render_character) (simp add: placements_def)
  also have "\<dots> = placements (render_character ac x) @ placements (render_pass ac xs) @ placements (render_pass ac ys)"
    by (simp add: Cons.IH)
  finally have step: "placements (render_pass ac ((x # xs) @ ys)) =
      (placements (render_character ac x) @ placements (render_pass ac xs)) @ placements (render_pass ac ys)"
    by simp
  have "placements (render_character ac x) @ placements (render_pass ac xs) = placements (render_pass ac (x # xs))"
    using placements_render_character [of ac x "render_pass ac xs"]
    by (simp add: render_pass_def placements_def)
  with step show ?case by simp
qed

text \<open>
  Claim C2. For a visible character whose current coordinate differs from its last one,
  \<open>print_character\<close> with \<open>clear_last\<close> set writes the character's symbol once, at the
  current coordinate, and a blank once, at the last coordinate, and nothing else; in a
  render pass over the visible characters these two writes are the whole contribution
  of that character.
\<close>

theorem render_pass_moved_character:
  assumes "is_visible ch = True" and "current_coord ch \<noteq> last_coord ch"
  shows "placements (print_character ch True) =
      [\<lparr>at_row = Some (row (current_coord ch)), at_column = Some (column (current_coord ch)),
        text_written = symbol ch\<rparr>,
       \<lparr>at_row = Some (row (last_coord ch)), at_column = Some (column (last_coord ch)),
        text_written = '' ''\<rparr>]
    \<and> placements (render_pass ac (front @ ch # rest)) =
      placements (render_pass ac front)
      @ [\<lparr>at_row = Some (row (current_coord ch)), at_column = Some (column (current_coord ch)),
          text_written = symbol ch\<rparr>,
         \<lparr>at_row = Some (row (last_coord ch)), at_column = Some (column (last_coord ch)),
          text_written = '' ''\<rparr>]
      @ placements (render_pass ac rest)"
proof -
  have p: "placements (print_character ch True) =
      [\<lparr>at_row = Some (row (current_coord ch)), at_column = Some (column (current_coord ch)),
        text_written = symbol ch\<rparr>,
       \<lparr>at_row = Some (row (last_coord ch)), at_column = Some (column (last_coord ch)),
        text_written = '' ''\<rparr>]"
    using placements_print_character_clear [of None None ch "[]"] by (simp add: placements_def)
  have r: "render_character ac ch = print_character ch True"
    using assms by (simp add: render_character_def)
  have "placements (render_pass ac (front @ ch # rest)) =
      placements (render_pass ac front) @ placements (render_pass ac [ch]) @ placements (render_pass ac rest)"
    using placements_render_pass_append [of ac front "[ch] @ rest"]
      placements_render_pass_append [of ac "[ch]" rest] by simp
  moreover have "placements (render_pass ac [ch]) = placements (print_character ch True)"
    using r by (simp add: render_pass_def)
  ultimately show ?thesis using p by simp
qed

theorem render_pass_moved_character_witness:
  "is_visible ((demo_character ''h'' 0 1)\<lparr>is_visible := True, current_coord := \<lparr>column = 0, row = 2\<rparr>\<rparr>) = True
   \<and> current_coord ((demo_character ''h'' 0 1)\<lparr>is_visible := True, current_coord := \<lparr>column = 0, row = 2\<rparr>\<rparr>)
       \<noteq> last_coord ((demo_character ''h'' 0 1)\<lparr>is_visible := True, current_coord := \<lparr>column = 0, row = 2\<rparr>\<rparr>)
   \<and> placements (render_pass (\<lambda>c. False)
        [demo_character ''i'' 1 1,
         (demo_character ''h'' 0 1)\<lparr>is_visible := True, current_coord := \<lparr>column = 0, row = 2\<rparr>\<rparr>]) =
      [\<lparr>at_row = Some 2, at_column = Some 0, text_written = ''h''\<rparr>,
       \<lparr>at_row = Some 1, at_column = Some 0, text_written = '' ''\<rparr>]"
proof -
  let ?ch = "(demo_character ''h'' 0 1)\<lparr>is_visible := True, current_coord := \<lparr>column = 0, row = 2\<rparr>\<rparr>"
  have v: "is_visible ?ch = True" by (simp add: demo_character_def)
  have m: "current_coord ?ch \<noteq> last_coord ?ch" by (simp add: demo_character_def)
  have f: "placements (render_pass (\<lambda>c. False) [demo_character ''i'' 1 1]) = []"
    by (simp add: render_pass_def render_character_def demo_character_def placements_def)
  have e: "placements (render_pass (\<lambda>c. False) ([]::effect_character list)) = []"
    by (simp add: render_pass_def placements_def)
  show ?thesis
    using render_pass_moved_character [OF v m, of "\<lambda>c. False" "[demo_character ''i'' 1 1]" "[]"] v m f e
    by (simp add: demo_character_def)
qed

section \<open>Properties of the entry point\<close>

text \<open>
  Claim C9. When standard input is not a TTY, \<open>get_piped_input\<close> returns all of its
  content; when it is a TTY, it returns the empty string and reads nothing, and \<open>main\<close>
  then does what it does for an empty pipe.
\<close>

theorem get_piped_input_pipe_or_tty:
  "(isatty sin = False \<longrightarrow> get_piped_input sin = (unread sin, sin\<lparr>unread := ''''\<rparr>))
   \<and> (isatty sin = True \<longrightarrow>
        get_piped_input sin = ('''', sin)
        \<and> fst (main sin) = fst (main \<lparr>isatty = False, unread = ''''\<rparr>))"
  by (simp add: get_piped_input_def main_def)

theorem get_piped_input_pipe_or_tty_witness:
  "isatty \<lparr>isatty = False, unread = ''hi''\<rparr> = False
   \<and> get_piped_input \<lparr>isatty = False, unread = ''hi''\<rparr> = (''hi'', \<lparr>isatty = False, unread = ''''\<rparr>)
   \<and> isatty \<lparr>isatty = True, unread = ''typed later''\<rparr> = True
   \<and> get_piped_input \<lparr>isatty = True, unread = ''typed later''\<rparr> = ('''', \<lparr>isatty = True, unread = ''typed later''\<rparr>)
   \<and> fst (main \<lparr>isatty = True, unread = ''typed later''\<rparr>) = [Print_line ''NO INPUT.'']"
  using get_piped_input_pipe_or_tty [of "\<lparr>isatty = False, unread = ''hi''\<rparr>"]
    get_piped_input_pipe_or_tty [of "\<lparr>isatty = True, unread = ''typed later''\<rparr>"]
  by (simp add: main_def get_piped_input_def)

text \<open>
  Claim C7. When the piped input is empty, \<open>main\<close> prints the line \<open>NO INPUT.\<close> and
  returns: it neither constructs the effect nor calls its \<open>run\<close>. The effect is
  constructed, from the input data, and run only when the input is not empty.
\<close>

theorem main_runs_effect_only_on_input:
  "(fst (get_piped_input sin) = '''' \<longrightarrow>
      fst (main sin) = [Print_line ''NO INPUT.'']
      \<and> Run_effect \<notin> set (fst (main sin))
      \<and> (\<forall>d. Construct_effect d \<notin> set (fst (main sin))))
   \<and> (fst (get_piped_input sin) \<noteq> '''' \<longrightarrow>
      fst (main sin) = [Construct_effect (fst (get_piped_input sin)), Run_effect])
   \<and> (Run_effect \<in> set (fst (main sin)) \<or> Construct_effect d \<in> set (fst (main sin)) \<longrightarrow>
      fst (get_piped_input sin) \<noteq> '''')"
  by (auto simp: main_def split: prod.splits if_splits)

theorem main_runs_effect_only_on_input_witness:
  "fst (get_piped_input \<lparr>isatty = False, unread = ''''\<rparr>) = ''''
   \<and> fst (main \<lparr>isatty = False, unread = ''''\<rparr>) = [Print_line ''NO INPUT.'']
   \<and> fst (get_piped_input \<lparr>isatty = False, unread = ''hi''\<rparr>) \<noteq> ''''
   \<and> fst (main \<lparr>isatty = False, unread = ''hi''\<rparr>) = [Construct_effect ''hi'', Run_effect]
   \<and> Run_effect \<in> set (fst (main \<lparr>isatty = False, unread = ''hi''\<rparr>))"
  using main_runs_effect_only_on_input [of "\<lparr>isatty = False, unread = ''''\<rparr>" "''hi''"]
    main_runs_effect_only_on_input [of "\<lparr>isatty = False, unread = ''hi''\<rparr>" "''hi''"]
  by (simp add: get_piped_input_def)

section \<open>Properties of the loop of run\<close>

lemma not_loop_condition_iff:
  "(\<not> loop_condition e) = (group_by_row e = [] \<and> pending_chars e = [] \<and> active_chars e = [])"
  by (auto simp: loop_condition_def)

lemma run_loop_Some_ended: "run_loop tick raw n e = Some e' \<Longrightarrow> \<not> loop_condition e'"
  by (induction n arbitrary: e) (auto split: if_splits)

lemma run_loop_ended: "\<not> loop_condition e \<Longrightarrow> run_loop tick raw n e = Some e"
  by (cases n) auto

text \<open>
  Claim C1. The loop of \<open>run\<close> ends exactly when the staging dictionary, the pending
  list and the active list are all empty: a run that returns, returns in such a state;
  from such a state the loop returns at once; and while one of the three is not empty,
  the loop has not ended and goes on with the state the loop body produces.
\<close>

theorem run_loop_ends_when_all_empty:
  "(run_loop tick raw n e = Some e' \<longrightarrow>
      group_by_row e' = [] \<and> pending_chars e' = [] \<and> active_chars e' = [])
   \<and> (run configure tick raw n e = Some (Inr e') \<longrightarrow>
      group_by_row e' = [] \<and> pending_chars e' = [] \<and> active_chars e' = [])
   \<and> (group_by_row e = [] \<and> pending_chars e = [] \<and> active_chars e = [] \<longrightarrow>
      run_loop tick raw n e = Some e)
   \<and> (group_by_row e \<noteq> [] \<or> pending_chars e \<noteq> [] \<or> active_chars e \<noteq> [] \<longrightarrow>
      run_loop tick raw 0 e = None \<and>
      run_loop tick raw (Suc n) e = run_loop tick raw n (frame tick raw e))"
proof -
  have a: "run_loop tick raw n e = Some e' \<longrightarrow>
      group_by_row e' = [] \<and> pending_chars e' = [] \<and> active_chars e' = []"
    using run_loop_Some_ended [of tick raw n e e'] by (simp add: not_loop_condition_iff)
  have b: "run configure tick raw n e = Some (Inr e') \<longrightarrow>
      group_by_row e' = [] \<and> pending_chars e' = [] \<and> active_chars e' = []"
  proof
    assume r: "run configure tick raw n e = Some (Inr e')"
    then obtain e1 where "run_loop tick raw n e1 = Some e'"
      by (auto simp: run_def split: sum.splits)
    then have "\<not> loop_condition e'" by (rule run_loop_Some_ended)
    then show "group_by_row e' = [] \<and> pending_chars e' = [] \<and> active_chars e' = []"
      by (simp add: not_loop_condition_iff)
  qed
  have c: "group_by_row e = [] \<and> pending_chars e = [] \<and> active_chars e = [] \<longrightarrow>
      run_loop tick raw n e = Some e"
    using run_loop_ended [of e tick raw n] by (simp add: not_loop_condition_iff)
  have d: "group_by_row e \<noteq> [] \<or> pending_chars e \<noteq> [] \<or> active_chars e \<noteq> [] \<longrightarrow>
      run_loop tick raw 0 e = None \<and>
      run_loop tick raw (Suc n) e = run_loop tick raw n (frame tick raw e)"
    by (auto simp: loop_condition_def)
  from a b c d show ?thesis by blast
qed

theorem run_loop_ends_when_all_empty_witness:
  "(case run_loop demo_tick (\<lambda>_. 0) 5 demo_staged of
      None \<Rightarrow> False
    | Some e' \<Rightarrow> group_by_row e' = [] \<and> pending_chars e' = [] \<and> active_chars e' = [])
   \<and> (case run demo_configure demo_tick (\<lambda>_. 0) 5 demo_effect of
      Some (Inr e') \<Rightarrow> group_by_row e' = [] \<and> pending_chars e' = [] \<and> active_chars e' = []
    | _ \<Rightarrow> False)
   \<and> run_loop demo_tick (\<lambda>_. 0) 5 (new_effect demo_store [] 2 0) = Some (new_effect demo_store [] 2 0)
   \<and> group_by_row demo_staged \<noteq> []
   \<and> run_loop demo_tick (\<lambda>_. 0) 0 demo_staged = None
   \<and> run_loop demo_tick (\<lambda>_. 0) (Suc 4) demo_staged = run_loop demo_tick (\<lambda>_. 0) 4 (frame demo_tick (\<lambda>_. 0) demo_staged)"
proof -
  have l: "case run_loop demo_tick (\<lambda>_. 0) 5 demo_staged of None \<Rightarrow> False | Some e' \<Rightarrow> True"
    by code_simp
  then obtain e1 where e1: "run_loop demo_tick (\<lambda>_. 0) 5 demo_staged = Some e1"
    by (cases "run_loop demo_tick (\<lambda>_. 0) 5 demo_staged") auto
  have r: "case run demo_configure demo_tick (\<lambda>_. 0) 5 demo_effect of Some (Inr e') \<Rightarrow> True | _ \<Rightarrow> False"
    by code_simp
  then obtain e2 where e2: "run demo_configure demo_tick (\<lambda>_. 0) 5 demo_effect = Some (Inr e2)"
    by (auto split: option.splits sum.splits)
  have g: "group_by_row demo_staged \<noteq> []" by (simp add: demo_staged_def)
  have n: "group_by_row (new_effect demo_store [] 2 0) = [] \<and> pending_chars (new_effect demo_store [] 2 0) = [] 
    \<and> active_chars (new_effect demo_store [] 2 0) = []" by (simp add: new_effect_def)
  have A: "case run_loop demo_tick (\<lambda>_. 0) 5 demo_staged of
      None \<Rightarrow> False
    | Some e' \<Rightarrow> group_by_row e' = [] \<and> pending_chars e' = [] \<and> active_chars e' = []"
    using run_loop_ends_when_all_empty [of demo_tick "\<lambda>_. 0" 5 demo_staged e1 demo_configure] e1
    by simp
  have B: "case run demo_configure demo_tick (\<lambda>_. 0) 5 demo_effect of
      Some (Inr e') \<Rightarrow> group_by_row e' = [] \<and> pending_chars e' = [] \<and> active_chars e' = []
    | _ \<Rightarrow> False"
    using run_loop_ends_when_all_empty [of demo_tick "\<lambda>_. 0" 5 demo_effect e2 demo_configure] e2
    by simp
  have C: "run_loop demo_tick (\<lambda>_. 0) 5 (new_effect demo_store [] 2 0) = Some (new_effect demo_store [] 2 0)"
    using run_loop_ends_when_all_empty [of demo_tick "\<lambda>_. 0" 5 "new_effect demo_store [] 2 0" e1 demo_configure] n
    by blast
  have D: "run_loop demo_tick (\<lambda>_. 0) 0 demo_staged = None
   \<and> run_loop demo_tick (\<lambda>_. 0) (Suc 4) demo_staged = run_loop demo_tick (\<lambda>_. 0) 4 (frame demo_tick (\<lambda>_. 0) demo_staged)"
    using run_loop_ends_when_all_empty [of demo_tick "\<lambda>_. 0" 4 demo_staged e1 demo_configure] g
    by blast
  from A B C g D show ?thesis by blast
qed

lemma fold_tick_active: "active_chars (fold (tick_character tick) cs e) = active_chars e"
  by (induction cs arbitrary: e) (simp_all add: tick_character_def)

lemma fold_tick_trace: "trace (fold (tick_character tick) cs e) = trace e @ map Tick cs"
  by (induction cs arbitrary: e) (simp_all add: tick_character_def)

lemma fold_tick_characters_notin:
  "i \<notin> set cs \<Longrightarrow> characters (fold (tick_character tick) cs e) i = characters e i"
  by (induction cs arbitrary: e) (simp_all add: tick_character_def)

lemma fold_tick_characters_in:
  "distinct cs \<Longrightarrow> i \<in> set cs \<Longrightarrow> characters (fold (tick_character tick) cs e) i = tick (characters e i)"
proof (induction cs arbitrary: e)
  case Nil
  then show ?case by simp
next
  case (Cons c cs)
  show ?case
  proof (cases "i = c")
    case True
    with Cons.prems have "i \<notin> set cs" by simp
    then show ?thesis using True
      by (simp add: fold_tick_characters_notin) (simp add: tick_character_def)
  next
    case False
    with Cons.prems have "i \<in> set cs" "distinct cs" by simp_all
    then show ?thesis using False Cons.IH [of "tick_character tick c e"]
      by (simp add: tick_character_def)
  qed
qed

text \<open>
  Claim C4. At the end of a frame the active list is the list of the characters that were
  active when they were ticked, filtered by their \<open>is_active\<close> flag as it stands after
  the ticks, in the same order. When no character occurs twice in the active list, each
  active character has been ticked exactly once and no other character has changed.
\<close>

theorem frame_keeps_exactly_the_active:
  "active_chars (frame tick raw e) =
     filter (\<lambda>i. is_active (characters (frame tick raw e) i))
       (active_chars (reveal_chars raw (stage_next_group e)))
   \<and> characters (frame tick raw e) = characters (animate_chars tick (reveal_chars raw (stage_next_group e)))
   \<and> (distinct (active_chars (reveal_chars raw (stage_next_group e))) \<longrightarrow>
        (\<forall>i. characters (frame tick raw e) i =
           (if i \<in> set (active_chars (reveal_chars raw (stage_next_group e)))
            then tick (characters (reveal_chars raw (stage_next_group e)) i)
            else characters (reveal_chars raw (stage_next_group e)) i)))"
  by (simp add: frame_def terminal_print_def drop_inactive_def animate_chars_def fold_tick_active
      fold_tick_characters_in fold_tick_characters_notin)

theorem frame_keeps_exactly_the_active_witness:
  "distinct (active_chars (reveal_chars (\<lambda>_. 0) (stage_next_group demo_staged)))
   \<and> active_chars (reveal_chars (\<lambda>_. 0) (stage_next_group demo_staged)) = [0]
   \<and> active_chars (frame demo_tick (\<lambda>_. 0) demo_staged) =
       filter (\<lambda>i. is_active (characters (frame demo_tick (\<lambda>_. 0) demo_staged) i))
         (active_chars (reveal_chars (\<lambda>_. 0) (stage_next_group demo_staged)))
   \<and> active_chars (frame demo_tick (\<lambda>_. 0) demo_staged) = []
   \<and> (\<forall>i. characters (frame demo_tick (\<lambda>_. 0) demo_staged) i =
         (if i \<in> set (active_chars (reveal_chars (\<lambda>_. 0) (stage_next_group demo_staged)))
          then demo_tick (characters (reveal_chars (\<lambda>_. 0) (stage_next_group demo_staged)) i)
          else characters (reveal_chars (\<lambda>_. 0) (stage_next_group demo_staged)) i))"
proof -
  let ?r = "reveal_chars (\<lambda>_. 0) (stage_next_group demo_staged)"
  let ?f = "frame demo_tick (\<lambda>_. 0) demo_staged"
  have a: "active_chars ?r = [0]"
    by code_simp
  have b: "active_chars ?f = []"
    by code_simp
  have d: "distinct (active_chars ?r)"
    by (simp add: a)
  note kept = frame_keeps_exactly_the_active [of demo_tick "\<lambda>_. 0" demo_staged]
  from kept have c1: "active_chars ?f = filter (\<lambda>i. is_active (characters ?f i)) (active_chars ?r)"
    by blast
  from kept d have c2: "\<forall>i. characters ?f i =
      (if i \<in> set (active_chars ?r) then demo_tick (characters ?r i) else characters ?r i)"
    by blast
  from d a c1 b c2 show ?thesis by blast
qed

lemma reveal_loop_trace:
  "trace (reveal_loop raw n e) =
     trace e @ map Set_visible (drop (length (active_chars e)) (active_chars (reveal_loop raw n e)))
   \<and> length (active_chars e) \<le> length (active_chars (reveal_loop raw n e))
   \<and> take (length (active_chars e)) (active_chars (reveal_loop raw n e)) = active_chars e"
proof (induction n arbitrary: e)
  case 0
  then show ?case by simp
next
  case (Suc n)
  show ?case
  proof (cases "pending_chars e = []")
    case True
    then show ?thesis by simp
  next
    case False
    let ?e1 = "reveal_one raw e"
    let ?x = "pending_chars e ! nat (randint raw 0 (int (length (pending_chars e)) - 1) (draws_taken e))"
    have a1: "active_chars ?e1 = active_chars e @ [?x]"
      by (simp add: reveal_one_def Let_def set_character_visibility_def)
    have t1: "trace ?e1 = trace e @ [Set_visible ?x]"
      by (simp add: reveal_one_def Let_def set_character_visibility_def)
    from Suc.IH [of ?e1] have ih:
      "trace (reveal_loop raw n ?e1) = trace ?e1 @ map Set_visible (drop (length (active_chars ?e1)) (active_chars (reveal_loop raw n ?e1)))"
      "length (active_chars ?e1) \<le> length (active_chars (reveal_loop raw n ?e1))"
      "take (length (active_chars ?e1)) (active_chars (reveal_loop raw n ?e1)) = active_chars ?e1"
      by simp_all
    let ?A = "active_chars (reveal_loop raw n ?e1)"
    let ?k = "length (active_chars e)"
    from ih(3) a1 have tk: "take (Suc ?k) ?A = active_chars e @ [?x]" by simp
    from ih(2) a1 have len: "Suc ?k \<le> length ?A" by simp
    have "take ?k ?A = take ?k (take (Suc ?k) ?A)" by simp
    also have "\<dots> = active_chars e" using tk by simp
    finally have tk0: "take ?k ?A = active_chars e" .
    have "?A ! ?k = (take (Suc ?k) ?A) ! ?k" by simp
    also have "\<dots> = ?x" using tk by simp
    finally have nth: "?A ! ?k = ?x" .
    have "drop ?k ?A = ?A ! ?k # drop (Suc ?k) ?A"
      using len by (simp add: Cons_nth_drop_Suc)
    then have dr: "drop ?k ?A = ?x # drop (Suc ?k) ?A" using nth by simp
    show ?thesis using False ih(1) t1 a1 dr tk0 len by simp
  qed
qed

text \<open>
  Claim C6. The calls a frame makes are, in this order: the reveals of the frame, one
  tick for every active character, and then the render pass of the terminal. The render
  pass is the last event of the frame, after every tick.
\<close>

theorem frame_ticks_then_prints:
  "trace (frame tick raw e) =
     trace e
     @ map Set_visible (drop (length (active_chars e)) (active_chars (reveal_chars raw (stage_next_group e))))
     @ map Tick (active_chars (reveal_chars raw (stage_next_group e)))
     @ [Print]"
proof -
  let ?s = "stage_next_group e"
  have s: "trace ?s = trace e" "active_chars ?s = active_chars e"
    by (simp_all add: stage_next_group_def Let_def)
  have r: "trace (reveal_chars raw ?s) =
     trace ?s @ map Set_visible (drop (length (active_chars ?s)) (active_chars (reveal_chars raw ?s)))"
    using reveal_loop_trace [of raw _ "?s\<lparr>draws_taken := Suc (draws_taken ?s)\<rparr>"]
    by (simp add: reveal_chars_def)
  show ?thesis
    using r s
    by (simp add: frame_def terminal_print_def drop_inactive_def animate_chars_def fold_tick_trace)
qed

theorem frame_ticks_then_prints_witness:
  "trace (frame demo_tick (\<lambda>_. 1) demo_staged) =
     [Print] @ map Set_visible [1, 0] @ map Tick [1, 0] @ [Print]"
proof -
  have a: "active_chars (reveal_chars (\<lambda>_. 1) (stage_next_group demo_staged)) = [1, 0]"
    by code_simp
  have b: "trace demo_staged = [Print]" "active_chars demo_staged = []"
    by (simp_all add: demo_staged_def)
  show ?thesis
    using frame_ticks_then_prints [of demo_tick "\<lambda>_. 1" demo_staged] a b by simp
qed

lemma min_list_key: "g \<noteq> [] \<Longrightarrow> min_list (map fst g) = Min (fst ` set g)"
  using min_list_Min [of "map fst g"] by simp

lemma min_key_lookup: "g \<noteq> [] \<Longrightarrow> \<exists>cs. map_of g (Min (fst ` set g)) = Some cs"
proof -
  assume "g \<noteq> []"
  then have "Min (fst ` set g) \<in> fst ` set g" by (intro Min_in) auto
  then show ?thesis by (metis domD dom_map_of_conv_image_fst)
qed

text \<open>
  Claim C5. When the pending list is empty and the staging dictionary is not, the first
  step of the frame moves into the pending list exactly the group stored under the
  lowest row key, and removes that key (and nothing else) from the dictionary.
\<close>

theorem stage_next_group_takes_lowest_row:
  assumes "pending_chars e = []" and "group_by_row e \<noteq> []"
  shows "map_of (group_by_row e) (Min (fst ` set (group_by_row e))) = Some (pending_chars (stage_next_group e))
    \<and> group_by_row (stage_next_group e) = AList.delete (Min (fst ` set (group_by_row e))) (group_by_row e)
    \<and> map_of (group_by_row (stage_next_group e)) = (map_of (group_by_row e))(Min (fst ` set (group_by_row e)) := None)
    \<and> Min (fst ` set (group_by_row e)) \<notin> fst ` set (group_by_row (stage_next_group e))"
proof -
  let ?k = "Min (fst ` set (group_by_row e))"
  from assms(2) obtain cs where cs: "map_of (group_by_row e) ?k = Some cs"
    using min_key_lookup by blast
  have k: "min_list (map fst (group_by_row e)) = ?k" using assms(2) by (rule min_list_key)
  have p: "pending_chars (stage_next_group e) = cs"
    using assms cs k by (simp add: stage_next_group_def Let_def)
  have g: "group_by_row (stage_next_group e) = AList.delete ?k (group_by_row e)"
    using assms k by (simp add: stage_next_group_def Let_def)
  show ?thesis using cs p g by (simp add: delete_conv' delete_notin_dom)
qed

theorem stage_next_group_takes_lowest_row_witness:
  "pending_chars (demo_staged\<lparr>group_by_row := [(2, [1]), (1, [0])]\<rparr>) = []
   \<and> group_by_row (demo_staged\<lparr>group_by_row := [(2, [1]), (1, [0])]\<rparr>) \<noteq> []
   \<and> Min (fst ` set (group_by_row (demo_staged\<lparr>group_by_row := [(2, [1]), (1, [0])]\<rparr>))) = 1
   \<and> pending_chars (stage_next_group (demo_staged\<lparr>group_by_row := [(2, [1]), (1, [0])]\<rparr>)) = [0]
   \<and> group_by_row (stage_next_group (demo_staged\<lparr>group_by_row := [(2, [1]), (1, [0])]\<rparr>)) = [(2, [1])]"
proof -
  let ?e = "demo_staged\<lparr>group_by_row := [(2, [1]), (1, [0])]\<rparr>"
  have p: "pending_chars ?e = []" and g: "group_by_row ?e \<noteq> []"
    by (simp_all add: demo_staged_def)
  have m: "Min (fst ` set (group_by_row ?e)) = 1" by simp
  show ?thesis
    using stage_next_group_takes_lowest_row [OF p g] p g m by simp
qed

lemma revealed_append: "revealed (xs @ ys) = revealed xs @ revealed ys"
  by (induction xs rule: revealed.induct) simp_all

lemma revealed_map_Tick: "revealed (map Tick cs) = []"
  by (induction cs) simp_all

lemma map_entry_mset:
  "r \<in> fst ` set g \<Longrightarrow>
   mset (concat (map snd (AList.map_entry r (\<lambda>cs. cs @ [i]) g))) = add_mset i (mset (concat (map snd g)))"
  by (induction g) auto

lemma update_new_key: "r \<notin> fst ` set g \<Longrightarrow> AList.update r v g = g @ [(r, v)]"
  by (induction g) auto

lemma map_entry_new_key:
  "r \<notin> fst ` set g \<Longrightarrow> AList.map_entry r f (g @ [(r, v)]) = g @ [(r, f v)]"
  by (induction g) auto

lemma group_append_mset:
  "mset (concat (map snd (group_append g r i))) = add_mset i (mset (concat (map snd g)))"
  by (cases "r \<in> fst ` set g")
     (simp_all add: group_append_def map_entry_mset update_new_key map_entry_new_key)

lemma group_append_distinct:
  "distinct (map fst g) \<Longrightarrow> distinct (map fst (group_append g r i))"
  by (simp add: group_append_def distinct_map_entry distinct_update)

lemma group_rows_mset:
  "mset (concat (map snd (group_rows chars cs g))) = mset cs + mset (concat (map snd g))"
  by (induction cs arbitrary: g) (simp_all add: group_append_mset)

lemma group_rows_distinct:
  "distinct (map fst g) \<Longrightarrow> distinct (map fst (group_rows chars cs g))"
  by (induction cs arbitrary: g) (simp_all add: group_append_distinct)

lemma prepare_characters_fields:
  "pending_chars (prepare_characters configure raw cs e) = pending_chars e @ cs
   \<and> trace (prepare_characters configure raw cs e) = trace e
   \<and> group_by_row (prepare_characters configure raw cs e) = group_by_row e
   \<and> active_chars (prepare_characters configure raw cs e) = active_chars e"
  by (induction cs arbitrary: e) simp_all

lemma before_loop_new_effect:
  assumes "before_loop configure raw (new_effect store cs top_row p) = Inr e1"
  shows "pending_chars e1 = [] \<and> trace e1 = [Print] \<and> active_chars e1 = []
    \<and> distinct (map fst (group_by_row e1)) \<and> mset (concat (map snd (group_by_row e1))) = mset cs"
  using assms
  by (auto simp: before_loop_def prepare_data_def Let_def terminal_print_def new_effect_def
      prepare_characters_fields group_rows_mset group_rows_distinct split: if_splits)

lemma lookup_delete_mset:
  "distinct (map fst g) \<Longrightarrow> map_of g k = Some cs \<Longrightarrow>
   mset (concat (map snd g)) = mset cs + mset (concat (map snd (AList.delete k g)))"
proof (induction g)
  case Nil
  then show ?case by simp
next
  case (Cons a g)
  obtain k' v where a: "a = (k', v)" by (cases a)
  show ?case
  proof (cases "k' = k")
    case True
    with Cons.prems a have "k \<notin> fst ` set g" "cs = v" by auto
    then show ?thesis using a True by simp
  next
    case False
    with Cons a show ?thesis by simp
  qed
qed

lemma stage_next_group_accounted:
  assumes "distinct (map fst (group_by_row e))"
  shows "accounted (stage_next_group e) = accounted e \<and> distinct (map fst (group_by_row (stage_next_group e)))"
proof (cases "pending_chars e = [] \<and> group_by_row e \<noteq> []")
  case False
  then show ?thesis using assms by (auto simp: stage_next_group_def)
next
  case True
  let ?k = "min_list (map fst (group_by_row e))"
  from True obtain cs where cs: "map_of (group_by_row e) ?k = Some cs"
    using min_key_lookup [of "group_by_row e"] min_list_key [of "group_by_row e"] by auto
  from lookup_delete_mset [OF assms cs] show ?thesis
    using True cs assms by (simp add: stage_next_group_def Let_def accounted_def distinct_delete)
qed

lemma randint_index: "xs \<noteq> [] \<Longrightarrow> nat (randint raw 0 (int (length xs) - 1) p) < length xs"
  by (simp add: randint_def)

lemma mset_remove_nth: "n < length xs \<Longrightarrow> add_mset (xs ! n) (mset (take n xs @ drop (Suc n) xs)) = mset xs"
  by (metis append_take_drop_id Cons_nth_drop_Suc mset.simps(2) mset_append union_mset_add_mset_right)

lemma reveal_one_accounted:
  assumes "pending_chars e \<noteq> []"
  shows "accounted (reveal_one raw e) = accounted e \<and> group_by_row (reveal_one raw e) = group_by_row e"
  using mset_remove_nth [OF randint_index [OF assms, of raw "draws_taken e"]]
  by (simp add: reveal_one_def Let_def set_character_visibility_def accounted_def revealed_append)

lemma reveal_loop_accounted:
  "accounted (reveal_loop raw n e) = accounted e \<and> group_by_row (reveal_loop raw n e) = group_by_row e"
  by (induction n arbitrary: e) (simp_all add: reveal_one_accounted)

lemma reveal_chars_accounted:
  "accounted (reveal_chars raw e) = accounted e \<and> group_by_row (reveal_chars raw e) = group_by_row e"
  by (simp add: reveal_chars_def reveal_loop_accounted) (simp add: accounted_def)

lemma fold_tick_fields:
  "pending_chars (fold (tick_character tick) cs e) = pending_chars e
   \<and> group_by_row (fold (tick_character tick) cs e) = group_by_row e
   \<and> trace (fold (tick_character tick) cs e) = trace e @ map Tick cs"
  by (induction cs arbitrary: e) (simp_all add: tick_character_def)

lemma frame_accounted:
  assumes "distinct (map fst (group_by_row e))"
  shows "accounted (frame tick raw e) = accounted e \<and> distinct (map fst (group_by_row (frame tick raw e)))"
proof -
  let ?r = "reveal_chars raw (stage_next_group e)"
  have "accounted (frame tick raw e) = accounted ?r \<and> group_by_row (frame tick raw e) = group_by_row ?r"
    by (simp add: frame_def terminal_print_def drop_inactive_def animate_chars_def accounted_def
        fold_tick_fields revealed_append revealed_map_Tick)
  then show ?thesis
    using reveal_chars_accounted [of raw "stage_next_group e"] stage_next_group_accounted [OF assms]
    by simp
qed

lemma loop_prefix_accounted:
  "distinct (map fst (group_by_row e)) \<Longrightarrow>
   accounted (loop_prefix tick raw n e) = accounted e \<and> distinct (map fst (group_by_row (loop_prefix tick raw n e)))"
  by (induction n arbitrary: e) (simp_all add: frame_accounted)

lemma run_loop_loop_prefix: "run_loop tick raw n e = Some e' \<Longrightarrow> e' = loop_prefix tick raw n e"
  by (induction n arbitrary: e) (auto split: if_splits)

lemma before_loop_total:
  "output_area_top e \<noteq> 0 \<Longrightarrow> \<exists>e1. before_loop configure raw e = Inr e1"
  by (simp add: before_loop_def prepare_data_def Let_def)

text \<open>
  Claim C8. In a run of a newly constructed effect on a terminal whose characters are
  pairwise different, no character is made visible twice, at any point of the loop; the
  characters made visible are characters of the terminal, and when the loop ends every
  character has been made visible exactly once.
\<close>

theorem every_character_revealed_at_most_once:
  assumes "distinct cs"
    and "before_loop configure raw (new_effect store cs top_row p) = Inr e1"
  shows "distinct (revealed (trace (loop_prefix tick raw n e1)))
    \<and> set (revealed (trace (loop_prefix tick raw n e1))) \<subseteq> set cs
    \<and> (run_loop tick raw n e1 = Some e' \<longrightarrow> mset (revealed (trace e')) = mset cs)"
proof -
  from before_loop_new_effect [OF assms(2)] have e1:
    "distinct (map fst (group_by_row e1))" "accounted e1 = mset cs"
    by (simp_all add: accounted_def)
  let ?e = "loop_prefix tick raw n e1"
  from loop_prefix_accounted [OF e1(1), of tick raw n] e1(2)
  have acc: "accounted ?e = mset cs" by simp
  then have m: "mset (revealed (trace ?e) @ pending_chars ?e @ concat (map snd (group_by_row ?e))) = mset cs"
    by (simp add: accounted_def add.assoc)
  have "distinct (revealed (trace ?e) @ pending_chars ?e @ concat (map snd (group_by_row ?e)))"
    using mset_eq_imp_distinct_iff [OF m] assms(1) by simp
  then have d: "distinct (revealed (trace ?e))" by simp
  have s: "set (revealed (trace ?e)) \<subseteq> set cs"
    using mset_eq_setD [OF m] by auto
  have t: "run_loop tick raw n e1 = Some e' \<longrightarrow> mset (revealed (trace e')) = mset cs"
  proof
    assume r: "run_loop tick raw n e1 = Some e'"
    then have "e' = ?e" by (rule run_loop_loop_prefix)
    moreover from r have "\<not> loop_condition e'" by (rule run_loop_Some_ended)
    ultimately show "mset (revealed (trace e')) = mset cs"
      using acc by (simp add: accounted_def loop_condition_def)
  qed
  from d s t show ?thesis by blast
qed

theorem every_character_revealed_at_most_once_witness:
  "distinct [0, 1::nat]
   \<and> before_loop demo_configure (\<lambda>_. 1) demo_effect
       = Inr (projr (before_loop demo_configure (\<lambda>_. 1) demo_effect))
   \<and> distinct (revealed (trace (loop_prefix demo_tick (\<lambda>_. 1) 2
        (projr (before_loop demo_configure (\<lambda>_. 1) demo_effect)))))
   \<and> revealed (trace (loop_prefix demo_tick (\<lambda>_. 1) 2
        (projr (before_loop demo_configure (\<lambda>_. 1) demo_effect)))) = [1, 0]"
proof -
  obtain e1 where e1: "before_loop demo_configure (\<lambda>_. 1) (new_effect demo_store [0, 1] 2 0) = Inr e1"
    using before_loop_total [of "new_effect demo_store [0, 1] 2 0" demo_configure "\<lambda>_. 1"]
    by (auto simp: new_effect_def)
  have d: "distinct [0, 1::nat]" by simp
  have p: "projr (before_loop demo_configure (\<lambda>_. 1) demo_effect) = e1"
    using e1 by (simp add: demo_effect_def)
  have r: "revealed (trace (loop_prefix demo_tick (\<lambda>_. 1) 2
        (projr (before_loop demo_configure (\<lambda>_. 1) demo_effect)))) = [1, 0]"
    by code_simp
  show ?thesis
    using every_character_revealed_at_most_once [OF d e1, where tick = demo_tick and n = 2] p e1 r
    by (simp add: demo_effect_def)
qed

section \<open>The run and the random generator\<close>


























end
